theory Spec2Isabelle
  imports Complex_Main
begin

section \<open>Common vocabulary\<close>

text \<open>
  Python 2 byte strings are lists of 8-bit characters. Exceptions are values: a call
  either returns the state it leaves behind, or raises with the state as mutated up to
  the raise.
\<close>

type_synonym bytes = "char list"

datatype py_error
  = ActionException string
  | ZeroDivisionError
  | KeyError
  | IndexError
  | SocketError int

datatype 's outcome = Returned 's | Raised py_error 's

fun state_of :: "'s outcome \<Rightarrow> 's" where
  "state_of (Returned s) = s"
| "state_of (Raised e s) = s"

fun raised :: "'s outcome \<Rightarrow> py_error option" where
  "raised (Returned s) = None"
| "raised (Raised e s) = Some e"

text \<open>Python's \<open>xs[i:j]\<close> on a sequence, with negative indices counted from the end.\<close>

definition py_index :: "nat \<Rightarrow> int \<Rightarrow> nat" where
  "py_index n i = (if i < 0 then nat (int n + i) else min n (nat i))"

definition py_slice :: "'a list \<Rightarrow> int \<Rightarrow> int \<Rightarrow> 'a list" where
  "py_slice xs i j =
     (let lo = py_index (length xs) i; hi = py_index (length xs) j
      in take (hi - lo) (drop lo xs))"

section \<open>rmqid/message.py\<close>

text \<open>
  The frames \<open>Message\<close> builds are pamqp objects; the model keeps the class and the
  constructor arguments. \<open>Basic_Nack\<close> is pamqp's negative acknowledgement, which the
  module could build but never does.
\<close>

datatype pvalue = PStr string | PInt int

datatype frame
  = Basic_Ack int
  | Basic_Nack int
  | Basic_Reject int
  | Basic_Publish string string
  | ContentHeader nat "(string \<times> pvalue) list"
  | ContentBody bytes

text \<open>
  \<open>self.method\<close> (the field \<open>method'\<close> below) is \<open>None\<close> for a message built locally
  and the delivery method frame (with its delivery tag) for a message received from the
  broker.
\<close>

datatype deliver = Deliver (delivery_tag: int)

text \<open>
  \<open>self.channel\<close>: the maximum frame size negotiated for it, and the frames handed to
  its \<open>write_frame\<close>, in call order.
\<close>

record channel =
  maximum_frame_size :: int
  written :: "frame list"

record message =
  method' :: "deliver option"
  body :: bytes
  properties :: "(string \<times> pvalue) list"
  channel :: channel

datatype exchange_arg = ExchangeName string | ExchangeObject string

definition write_frame :: "frame \<Rightarrow> message \<Rightarrow> message" where
  "write_frame f m = m\<lparr>channel := (channel m)\<lparr>written := written (channel m) @ [f]\<rparr>\<rparr>"

definition ack :: "message \<Rightarrow> message outcome" where
  "ack m =
     (case method' m of
        None \<Rightarrow> Raised (ActionException ''Can not ack non-received message'') m
      | Some d \<Rightarrow> Returned (write_frame (Basic_Ack (delivery_tag d)) m))"

definition nack :: "message \<Rightarrow> message outcome" where
  "nack m =
     (case method' m of
        None \<Rightarrow> Raised (ActionException ''Can not nack non-received message'') m
      | Some d \<Rightarrow> Returned (write_frame (Basic_Ack (delivery_tag d)) m))"

definition reject :: "message \<Rightarrow> message outcome" where
  "reject m =
     (case method' m of
        None \<Rightarrow> Raised (ActionException ''Can not reject non-received message'') m
      | Some d \<Rightarrow> Returned (write_frame (Basic_Reject (delivery_tag d)) m))"

text \<open>
  \<open>_properties\<close> deletes from \<open>self.properties\<close> every key that is not an attribute of
  \<open>Basic.Properties\<close> and returns the properties object built from what is left. The
  attribute table belongs to pamqp and is a parameter here.
\<close>

definition prune_invalid_properties :: "string list \<Rightarrow> message \<Rightarrow> message" where
  "prune_invalid_properties invalid_keys m =
     m\<lparr>properties := filter (\<lambda>(k, v). k \<notin> set invalid_keys) (properties m)\<rparr>"

definition properties_prop :: "string list \<Rightarrow> message \<Rightarrow> (string \<times> pvalue) list \<times> message" where
  "properties_prop attributes m =
     (let invalid_keys = filter (\<lambda>k. k \<notin> set attributes) (map fst (properties m));
          m' = prune_invalid_properties invalid_keys m
      in (properties m', m'))"

text \<open>
  \<open>int(math.ceil(len(self.body) / float(self.channel.maximum_frame_size)))\<close>: the
  division is a float division, which raises on a zero divisor; the quotient of two
  integers of the size of a message body is exact enough for its ceiling to be the
  ceiling of the real quotient.
\<close>

definition pieces_of :: "nat \<Rightarrow> int \<Rightarrow> int option" where
  "pieces_of len mfs =
     (if mfs = 0 then None else Some \<lceil>real len / real_of_int mfs\<rceil>)"

definition body_piece :: "message \<Rightarrow> int \<Rightarrow> frame" where
  "body_piece m offset =
     (let start = maximum_frame_size (channel m) * offset;
          end0 = start + maximum_frame_size (channel m);
          end1 = (if end0 > int (length (body m)) then int (length (body m)) else end0)
      in ContentBody (py_slice (body m) start end1))"

definition publish :: "string list \<Rightarrow> exchange_arg \<Rightarrow> string \<Rightarrow> message \<Rightarrow> message outcome" where
  "publish attributes exchange routing_key m =
     (let exchange_name = (case exchange of ExchangeObject n \<Rightarrow> n | ExchangeName n \<Rightarrow> n);
          m1 = write_frame (Basic_Publish exchange_name routing_key) m;
          (props, m2) = properties_prop attributes m1;
          m3 = write_frame (ContentHeader (length (body m2)) props) m2
      in case pieces_of (length (body m3)) (maximum_frame_size (channel m3)) of
           None \<Rightarrow> Raised ZeroDivisionError m3
         | Some pieces \<Rightarrow>
             Returned (foldl (\<lambda>s offset. write_frame (body_piece s (int offset)) s)
                         m3 [0 ..< nat pieces]))"

text \<open>A message as the broker delivered it, with delivery tag 7.\<close>

definition received_message :: message where
  "received_message =
     \<lparr>method' = Some (Deliver 7), body = ''hi'', properties = [],
      channel = \<lparr>maximum_frame_size = 131072, written = []\<rparr>\<rparr>"

section \<open>rabbitpy/io.py\<close>

subsection \<open>Collaborators\<close>

text \<open>
  The names of \<open>rabbitpy.events\<close> that the module sets, clears or tests, the lifecycle
  states of \<open>base.StatefulObject\<close>, and the two exception classes of
  \<open>rabbitpy.exceptions\<close> it puts on the exception queue (host, port and the text of the
  cause; \<open>str\<close> of a socket error is kept as its errno).
\<close>

datatype event = SOCKET_CLOSE | SOCKET_CLOSED | SOCKET_OPENED | EXCEPTION_RAISED

datatype lifecycle = OPENING | OPEN | CLOSING | CLOSED

datatype cause = Message string | Errno int

datatype fault
  = ConnectionResetException string nat cause
  | ConnectionException string nat cause

text \<open>
  The frame codec of pamqp. \<open>frame.marshal(frame, channel_id)\<close> gives bytes;
  \<open>frame.unmarshal(data)\<close> gives the number of bytes consumed, the channel id and the
  frame, or raises one of two exceptions. Both are parameters of the model, named
  \<open>marshal\<close> and \<open>unmarshal\<close>. Frames are opaque: the type \<open>'f\<close>.
\<close>

datatype 'f unmarshaled
  = Unmarshaled nat int 'f
  | UnmarshalingException
  | AMQPFrameError

text \<open>
  A channel object as \<open>IO\<close> uses it: \<open>int(channel)\<close> and, for channel 0, its \<open>open\<close>
  property. What \<open>on_frame\<close> does inside the channel is the channel's business; the
  call itself is recorded in the trace of effects below.
\<close>

record consumer =
  chan_id :: int
  open' :: bool

datatype 'f effect
  = Lock_acquire
  | Lock_release
  | On_frame 'f
  | Queue_put int 'f

text \<open>What the operating system answers in one iteration of the loop.\<close>

datatype recv_outcome = Received bytes | RecvTimeout | RecvError int

datatype send_outcome = Sent nat | SendTimeout | SendError int

record 'f poll_env =
  arrivals :: "(int \<times> 'f) list"
  rlist :: "nat list"
  wlist :: "nat list"
  xlist :: "nat list"
  trigger_recv :: "int option"
  recv_result :: recv_outcome
  send_result :: send_outcome

text \<open>What creating a socket for a resolved address and connecting it does.\<close>

datatype attempt = Connects | Refused int

type_synonym sockaddr = "string \<times> nat"

subsection \<open>State\<close>

text \<open>
  One record for the \<open>IO\<close> thread object and the thread-local data of its \<open>IOLoop\<close>.
  Queues (\<open>Queue.Queue\<close>, \<open>collections.deque\<close>) are lists with the front first.
  Two fields are not attributes of the objects but what the outside sees of them:
  \<open>transmitted\<close>, the bytes the data socket has accepted, and \<open>trace\<close>, the calls made
  to the dispatch lock, to the channel-0 handler and to the channels' queues, in order.
\<close>

record 'f io =
  host :: string
  port :: nat
  events :: "event set"
  exceptions :: "fault list"
  write_queue :: "(int \<times> 'f) list"
  buffer :: bytes
  channels :: "int \<rightharpoonup> (consumer \<times> 'f list)"
  socket :: "sockaddr option"
  state :: "lifecycle option"
  fd :: nat
  write_trigger :: nat
  running :: bool
  write_buffer :: "bytes list"
  transmitted :: bytes
  trace :: "'f effect list"

subsection \<open>IO: registry, dispatch, faults\<close>

definition add_channel :: "consumer \<Rightarrow> 'f list \<Rightarrow> 'f io \<Rightarrow> 'f io" where
  "add_channel chan queue s = s\<lparr>channels := (channels s)(chan_id chan \<mapsto> (chan, queue))\<rparr>"

definition on_error :: "cause \<Rightarrow> 'f io \<Rightarrow> 'f io outcome" where
  "on_error exception s =
     (case channels s 0 of
        None \<Rightarrow> Raised KeyError s
      | Some (chan0, q) \<Rightarrow>
          Returned (s\<lparr>exceptions := exceptions s @
                        [if open' chan0
                         then ConnectionResetException (host s) (port s) exception
                         else ConnectionException (host s) (port s) exception],
                      events := insert EXCEPTION_RAISED (events s)\<rparr>))"

definition get_frame_from_str ::
    "(bytes \<Rightarrow> 'f unmarshaled) \<Rightarrow> bytes \<Rightarrow> bytes \<times> (int \<times> 'f) option" where
  "get_frame_from_str unmarshal data =
     (if data = [] then (data, None)
      else case unmarshal data of
             UnmarshalingException \<Rightarrow> (data, None)
           | AMQPFrameError \<Rightarrow> (data, None)
           | Unmarshaled byte_count channel_id frame_in \<Rightarrow>
               (drop byte_count data, Some (channel_id, frame_in)))"

definition read_frame ::
    "(bytes \<Rightarrow> 'f unmarshaled) \<Rightarrow> 'f io \<Rightarrow> (int \<times> 'f) option \<times> 'f io" where
  "read_frame unmarshal s =
     (let (rest, decoded) = get_frame_from_str unmarshal (buffer s)
      in (decoded, s\<lparr>buffer := rest\<rparr>))"

definition add_frame_to_queue :: "int \<Rightarrow> 'f \<Rightarrow> 'f io \<Rightarrow> 'f io outcome" where
  "add_frame_to_queue channel_id frame_value s =
     (case channels s channel_id of
        None \<Rightarrow> Raised KeyError s
      | Some (chan, q) \<Rightarrow>
          Returned (s\<lparr>channels := (channels s)(channel_id \<mapsto> (chan, q @ [frame_value])),
                      trace := trace s @ [Queue_put channel_id frame_value]\<rparr>))"

text \<open>
  The channel-0 branch of \<open>on_read\<close>: acquire the lock, look channel 0 up, call its
  \<open>on_frame\<close>, release. A missing channel 0 raises between acquire and release.
\<close>

definition call_channel0 :: "'f \<Rightarrow> 'f io \<Rightarrow> 'f io outcome" where
  "call_channel0 frame_value s =
     (let s1 = s\<lparr>trace := trace s @ [Lock_acquire]\<rparr>
      in case channels s1 0 of
           None \<Rightarrow> Raised KeyError s1
         | Some (chan0, q) \<Rightarrow>
             Returned (s1\<lparr>trace := trace s1 @ [On_frame frame_value, Lock_release]\<rparr>))"

text \<open>
  The \<open>while self._buffer\<close> loop of \<open>on_read\<close>. It ends when the buffer is empty, when
  no frame could be decoded from a non-empty buffer, or when a dispatch raises; a codec
  that reports a frame and consumes nothing keeps it running for ever, which is the
  value \<open>None\<close>.
\<close>

partial_function (option) on_read_loop ::
    "(bytes \<Rightarrow> 'f unmarshaled) \<Rightarrow> 'f io \<Rightarrow> 'f io outcome option" where
  "on_read_loop unmarshal s =
     (if buffer s = [] then Some (Returned s)
      else
        let (decoded, s1) = read_frame unmarshal s
        in case decoded of
             None \<Rightarrow> if buffer s1 \<noteq> [] then Some (Returned s1) else Some (Raised KeyError s1)
           | Some (channel_id, frame_value) \<Rightarrow>
               if channel_id = 0 then
                 (case call_channel0 frame_value s1 of
                    Raised e s2 \<Rightarrow> Some (Raised e s2)
                  | Returned s2 \<Rightarrow> on_read_loop unmarshal s2)
               else
                 (case add_frame_to_queue channel_id frame_value s1 of
                    Raised e s2 \<Rightarrow> Some (Raised e s2)
                  | Returned s2 \<Rightarrow> on_read_loop unmarshal s2))"

declare on_read_loop.simps [code]

definition on_read :: "(bytes \<Rightarrow> 'f unmarshaled) \<Rightarrow> bytes \<Rightarrow> 'f io \<Rightarrow> 'f io outcome option" where
  "on_read unmarshal data s = on_read_loop unmarshal (s\<lparr>buffer := buffer s @ data\<rparr>)"

subsection \<open>IOLoop\<close>

text \<open>
  \<open>IOLoop._read\<close>. The \<open>try\<close> covers the read callback as well, but only a timeout or
  a socket error is caught: what \<open>on_read\<close> raises passes through.
\<close>

definition loop_read ::
    "(bytes \<Rightarrow> 'f unmarshaled) \<Rightarrow> 'f poll_env \<Rightarrow> 'f io \<Rightarrow> 'f io outcome option" where
  "loop_read unmarshal env s =
     (if \<not> running s then Some (Returned s)
      else case recv_result env of
             Received data \<Rightarrow> on_read unmarshal data s
           | RecvTimeout \<Rightarrow> Some (Returned s)
           | RecvError e \<Rightarrow> Some (on_error (Errno e) (s\<lparr>running := False\<rparr>)))"

text \<open>
  \<open>IOLoop._write\<close>. \<open>send\<close> answers with the number of bytes of the chunk it took, in
  order from its front; those are the bytes that reach the peer.
\<close>

definition loop_write :: "'f poll_env \<Rightarrow> 'f io \<Rightarrow> 'f io outcome" where
  "loop_write env s =
     (if \<not> running s then Returned s
      else case write_buffer s of
             [] \<Rightarrow> Raised IndexError s
           | frame_data # rest \<Rightarrow>
               (let s1 = s\<lparr>write_buffer := rest\<rparr>
                in case send_result env of
                     SendTimeout \<Rightarrow> Returned (s1\<lparr>write_buffer := frame_data # write_buffer s1\<rparr>)
                   | SendError e \<Rightarrow>
                       if e = 35
                       then Returned (s1\<lparr>write_buffer := frame_data # write_buffer s1\<rparr>)
                       else on_error (Errno e) (s1\<lparr>running := False\<rparr>)
                   | Sent bytes_sent \<Rightarrow>
                       (let s2 = s1\<lparr>transmitted := transmitted s1 @ take bytes_sent frame_data\<rparr>
                        in if bytes_sent < length frame_data
                           then Returned (s2\<lparr>write_buffer :=
                                               drop bytes_sent frame_data # write_buffer s2\<rparr>)
                           else Returned s2)))"

text \<open>
  \<open>IOLoop._poll\<close>: drain the write queue into the write buffer, poll, then at most one
  error report, or one read and one write. The poller's answer comes from the
  environment.
\<close>

definition drain_write_queue :: "('f \<Rightarrow> int \<Rightarrow> bytes) \<Rightarrow> 'f io \<Rightarrow> 'f io" where
  "drain_write_queue marshal s =
     s\<lparr>write_buffer := write_buffer s @ map (\<lambda>data. marshal (snd data) (fst data)) (write_queue s),
       write_queue := []\<rparr>"

definition loop_poll ::
    "('f \<Rightarrow> int \<Rightarrow> bytes) \<Rightarrow> (bytes \<Rightarrow> 'f unmarshaled) \<Rightarrow> 'f poll_env \<Rightarrow> 'f io
      \<Rightarrow> 'f io outcome option" where
  "loop_poll marshal unmarshal env s =
     (let s1 = drain_write_queue marshal s
      in if xlist env \<noteq> [] then
           Some (on_error (Message ''Connection reset'')
                   (s1\<lparr>events := insert SOCKET_CLOSE (events s1)\<rparr>))
         else
           case (if write_trigger s1 \<in> set (rlist env) then trigger_recv env else None) of
             Some e \<Rightarrow> Some (Raised (SocketError e) s1)
           | None \<Rightarrow>
               (case (if fd s1 \<in> set (rlist env) then loop_read unmarshal env s1
                      else Some (Returned s1)) of
                  None \<Rightarrow> None
                | Some (Raised e s2) \<Rightarrow> Some (Raised e s2)
                | Some (Returned s2) \<Rightarrow>
                    if wlist env \<noteq> [] \<and> write_buffer s2 \<noteq> []
                    then Some (loop_write env s2)
                    else Some (Returned s2)))"

text \<open>
  One pass of the \<open>while\<close> body of \<open>IOLoop.run\<close> calls \<open>_poll\<close> on the state the
  producer threads left: they have appended \<open>arrivals\<close> to the write queue since the
  pass before.
\<close>

definition loop_step ::
    "('f \<Rightarrow> int \<Rightarrow> bytes) \<Rightarrow> (bytes \<Rightarrow> 'f unmarshaled) \<Rightarrow> 'f poll_env \<Rightarrow> 'f io
      \<Rightarrow> 'f io outcome option" where
  "loop_step marshal unmarshal env s =
     loop_poll marshal unmarshal env (s\<lparr>write_queue := write_queue s @ arrivals env\<rparr>)"

definition EINTR :: int where
  "EINTR = 4"

text \<open>
  \<open>IOLoop.run\<close>. An \<open>EnvironmentError\<close> out of \<open>_poll\<close> is swallowed (with \<open>EINTR\<close> the
  pass restarts at once), anything else leaves the loop and the thread. With no answer
  left from the environment the poll blocks: the loop does not return.
\<close>

fun loop_iterate ::
    "('f \<Rightarrow> int \<Rightarrow> bytes) \<Rightarrow> (bytes \<Rightarrow> 'f unmarshaled) \<Rightarrow> 'f poll_env list \<Rightarrow> 'f io
      \<Rightarrow> 'f io outcome option" where
  "loop_iterate marshal unmarshal [] s = (if running s then None else Some (Returned s))"
| "loop_iterate marshal unmarshal (env # envs) s =
     (if \<not> running s then Some (Returned s)
      else case loop_step marshal unmarshal env s of
             None \<Rightarrow> None
           | Some (Raised (SocketError e) s1) \<Rightarrow>
               if e = EINTR then loop_iterate marshal unmarshal envs s1
               else if SOCKET_CLOSE \<in> events s1 then Some (Returned s1)
               else loop_iterate marshal unmarshal envs s1
           | Some (Raised e s1) \<Rightarrow> Some (Raised e s1)
           | Some (Returned s1) \<Rightarrow>
               if SOCKET_CLOSE \<in> events s1 then Some (Returned s1)
               else loop_iterate marshal unmarshal envs s1)"

definition loop_run ::
    "('f \<Rightarrow> int \<Rightarrow> bytes) \<Rightarrow> (bytes \<Rightarrow> 'f unmarshaled) \<Rightarrow> 'f poll_env list \<Rightarrow> 'f io
      \<Rightarrow> 'f io outcome option" where
  "loop_run marshal unmarshal envs s = loop_iterate marshal unmarshal envs (s\<lparr>running := True\<rparr>)"

text \<open>
  The states a run goes through are those of successive passes; \<open>iterations\<close> applies
  the passes without looking at the exit conditions of the loop.
\<close>

fun iterations ::
    "('f \<Rightarrow> int \<Rightarrow> bytes) \<Rightarrow> (bytes \<Rightarrow> 'f unmarshaled) \<Rightarrow> 'f poll_env list \<Rightarrow> 'f io
      \<Rightarrow> 'f io option" where
  "iterations marshal unmarshal [] s = Some s"
| "iterations marshal unmarshal (env # envs) s =
     (case loop_step marshal unmarshal env s of
        None \<Rightarrow> None
      | Some r \<Rightarrow> iterations marshal unmarshal envs (state_of r))"

subsection \<open>IO: connecting and running\<close>

definition get_addr_info :: "(sockaddr \<times> attempt) list option \<Rightarrow> (sockaddr \<times> attempt) list" where
  "get_addr_info resolved = (case resolved of None \<Rightarrow> [] | Some res \<Rightarrow> res)"

text \<open>The \<open>for\<close> loop of \<open>_connect\<close>: the value of \<open>sock\<close> when it ends.\<close>

fun connect_loop :: "(sockaddr \<times> attempt) list \<Rightarrow> sockaddr option" where
  "connect_loop [] = None"
| "connect_loop ((sockaddr, Connects) # rest) = Some sockaddr"
| "connect_loop ((sockaddr, Refused e) # rest) = connect_loop rest"

definition io_connect :: "(sockaddr \<times> attempt) list option \<Rightarrow> 'f io \<Rightarrow> 'f io" where
  "io_connect resolved s =
     (let s1 = s\<lparr>state := Some OPENING\<rparr>
      in case connect_loop (get_addr_info resolved) of
           None \<Rightarrow>
             s1\<lparr>exceptions := exceptions s1 @
                    [ConnectionException (host s1) (port s1) (Message ''Could not connect'')],
                events := insert EXCEPTION_RAISED (events s1)\<rparr>
         | Some sock \<Rightarrow>
             s1\<lparr>socket := Some sock,
                events := insert SOCKET_OPENED (events s1),
                state := Some OPEN\<rparr>)"

definition io_run ::
    "('f \<Rightarrow> int \<Rightarrow> bytes) \<Rightarrow> (bytes \<Rightarrow> 'f unmarshaled) \<Rightarrow> (sockaddr \<times> attempt) list option
      \<Rightarrow> 'f poll_env list \<Rightarrow> 'f io \<Rightarrow> 'f io outcome option" where
  "io_run marshal unmarshal resolved envs s =
     (let s1 = io_connect resolved s
      in if socket s1 = None then Some (Returned s1)
         else case loop_run marshal unmarshal envs s1 of
                None \<Rightarrow> None
              | Some (Raised e s2) \<Rightarrow> Some (Raised e s2)
              | Some (Returned s2) \<Rightarrow>
                  Some (Returned
                    (if exceptions s2 \<noteq> [] \<and> EXCEPTION_RAISED \<notin> events s2
                     then s2\<lparr>events := insert EXCEPTION_RAISED (events s2)\<rparr>
                     else s2)))"

definition io_close :: "'f io \<Rightarrow> 'f io" where
  "io_close s =
     s\<lparr>state := Some CLOSED,
       events := insert SOCKET_CLOSED (events s - {SOCKET_OPENED})\<rparr>"

text \<open>The object as \<open>IO.__init__\<close> leaves it, for a host, a port and two descriptors.\<close>

definition init_io :: "string \<Rightarrow> nat \<Rightarrow> nat \<Rightarrow> nat \<Rightarrow> 'f io" where
  "init_io h p data_fd trigger_fd =
     \<lparr>host = h, port = p, events = {}, exceptions = [], write_queue = [], buffer = [],
      channels = Map.empty, socket = None, state = None, fd = data_fd,
      write_trigger = trigger_fd, running = False, write_buffer = [], transmitted = [],
      trace = []\<rparr>"

section \<open>Vocabulary of the properties\<close>

text \<open>
  What \<open>on_read\<close> does with one decoded frame: the branch on the channel id in the
  body of its loop.
\<close>

definition dispatch :: "int \<Rightarrow> 'f \<Rightarrow> 'f io \<Rightarrow> 'f io outcome" where
  "dispatch channel_id frame_value s =
     (if channel_id = 0 then call_channel0 frame_value s
      else add_frame_to_queue channel_id frame_value s)"

fun with_buffer :: "bytes \<Rightarrow> 'f io outcome \<Rightarrow> 'f io outcome" where
  "with_buffer b (Returned s) = Returned (s\<lparr>buffer := b\<rparr>)"
| "with_buffer b (Raised e s) = Raised e (s\<lparr>buffer := b\<rparr>)"

text \<open>
  What the properties of the read path ask of the codec. A codec makes progress when
  every frame it reports consumes at least one byte. It is a framing codec when, in
  addition, a reported frame lies within the data given and is reported again, the
  same, whatever bytes follow: frames are delimited by their own content.
\<close>

definition progress :: "(bytes \<Rightarrow> 'f unmarshaled) \<Rightarrow> bool" where
  "progress unmarshal = (\<forall>data n c f. unmarshal data = Unmarshaled n c f \<longrightarrow> 0 < n)"

definition framing_codec :: "(bytes \<Rightarrow> 'f unmarshaled) \<Rightarrow> bool" where
  "framing_codec unmarshal =
     (\<forall>data n c f. unmarshal data = Unmarshaled n c f \<longrightarrow>
        0 < n \<and> n \<le> length data \<and> (\<forall>extra. unmarshal (data @ extra) = Unmarshaled n c f))"

text \<open>
  The read path receiving a stream in chunks: one \<open>on_read\<close> per chunk. A raise ends
  the thread, and the chunks after it are never delivered.
\<close>

fun feed :: "(bytes \<Rightarrow> 'f unmarshaled) \<Rightarrow> bytes list \<Rightarrow> 'f io \<Rightarrow> 'f io outcome option" where
  "feed unmarshal [] s = Some (Returned s)"
| "feed unmarshal (chunk # chunks) s =
     (case on_read unmarshal chunk s of
        None \<Rightarrow> None
      | Some (Raised e s') \<Rightarrow> Some (Raised e s')
      | Some (Returned s') \<Rightarrow> feed unmarshal chunks s')"

text \<open>
  The effects the dispatcher is to have for one frame, and the frames a channel's
  queue is to receive from a sequence of frames, as the specification words them.
\<close>

fun dispatch_effects :: "int \<times> 'f \<Rightarrow> 'f effect list" where
  "dispatch_effects (c, f) =
     (if c = 0 then [Lock_acquire, On_frame f, Lock_release] else [Queue_put c f])"

definition queued_for :: "int \<Rightarrow> (int \<times> 'f) list \<Rightarrow> 'f list" where
  "queued_for c frames = map snd (filter (\<lambda>(c', f). c' = c \<and> c' \<noteq> 0) frames)"

text \<open>
  A small codec to run the model on concrete bytes: a frame is the byte of its
  channel, the byte of its length and that many bytes of payload.
\<close>

definition tlv_marshal :: "bytes \<Rightarrow> int \<Rightarrow> bytes" where
  "tlv_marshal payload c = char_of (nat c) # char_of (length payload) # payload"

definition tlv_unmarshal :: "bytes \<Rightarrow> bytes unmarshaled" where
  "tlv_unmarshal data =
     (case data of
        c # n # payload \<Rightarrow>
          if of_char n \<le> length payload
          then Unmarshaled (2 + of_char n) (int (of_char c)) (take (of_char n) payload)
          else UnmarshalingException
      | _ \<Rightarrow> UnmarshalingException)"

text \<open>An \<open>IO\<close> object with channel 0 and channel 5 registered, both with empty queues.\<close>

definition example_io :: "bytes io" where
  "example_io =
     add_channel \<lparr>chan_id = 5, open' = True\<rparr> []
       (add_channel \<lparr>chan_id = 0, open' = True\<rparr> [] (init_io ''broker'' 5672 3 4))"

text \<open>
  The frames of the scenario, A on channel 0 and then B on channel 5, and their bytes
  under the small codec cut into three chunks that split both frames.
\<close>

definition example_frames :: "(int \<times> bytes) list" where
  "example_frames = [(0, ''A''), (5, ''B'')]"

definition example_chunks :: "bytes list" where
  "example_chunks = [[CHR 0x00, CHR 0x01], [CHR ''A'', CHR 0x05], [CHR 0x01, CHR ''B'']]"

text \<open>
  The general frame of AMQP 0-9-1 as \<open>pamqp.frame.unmarshal\<close> decodes it, without the
  protocol header and with the content of a frame kept as its bytes: one byte of type,
  two of channel, four of size, the payload and the end byte \<open>0xCE\<close>. A heartbeat (type
  8, size 0) is reported as 8 bytes consumed as soon as its 7-byte header is there; any
  other frame only once all its bytes are, and a wrong end byte is a frame error.
\<close>

datatype amqp_frame = Heartbeat | Frame nat bytes

definition be_nat :: "bytes \<Rightarrow> nat" where
  "be_nat bs = foldl (\<lambda>acc c. acc * 256 + of_char c) 0 bs"

definition amqp_unmarshal :: "bytes \<Rightarrow> amqp_frame unmarshaled" where
  "amqp_unmarshal data =
     (if length data < 7 then UnmarshalingException
      else
        let frame_type = be_nat (take 1 data);
            channel_id = be_nat (take 2 (drop 1 data));
            frame_size = be_nat (take 4 (drop 3 data))
        in if frame_type = 8 \<and> frame_size = 0 then Unmarshaled 8 (int channel_id) Heartbeat
           else if frame_size = 0 then UnmarshalingException
           else
             let byte_count = 7 + frame_size + 1
             in if byte_count > length data then UnmarshalingException
                else if data ! (byte_count - 1) \<noteq> CHR 0xCE then AMQPFrameError
                else Unmarshaled byte_count (int channel_id)
                       (Frame frame_type (take frame_size (drop 7 data))))"




definition heartbeat_head :: bytes where
  "heartbeat_head = [CHR 0x08, CHR 0x00, CHR 0x00, CHR 0x00, CHR 0x00, CHR 0x00, CHR 0x00]"


text \<open>
  The outbound bytes that are not yet on the wire, in the order they will go: the
  chunks of the write buffer, then the marshaled forms of the frames still in the write
  queue. A send that takes part of a chunk, none of it, times out, or fails with errno
  35 leaves the connection running; these are the ways a transmission is split.
\<close>

definition pending :: "('f \<Rightarrow> int \<Rightarrow> bytes) \<Rightarrow> 'f io \<Rightarrow> bytes" where
  "pending marshal s =
     concat (write_buffer s)
     @ concat (map (\<lambda>data. marshal (snd data) (fst data)) (write_queue s))"

definition partial_send :: "send_outcome \<Rightarrow> bool" where
  "partial_send r = (case r of Sent n \<Rightarrow> True | SendTimeout \<Rightarrow> True | SendError e \<Rightarrow> e = 35)"

definition outbound :: "('f \<Rightarrow> int \<Rightarrow> bytes) \<Rightarrow> 'f io \<Rightarrow> bytes" where
  "outbound marshal s = transmitted s @ pending marshal s"

text \<open>
  The example object with its loop running, an answer of the environment in which
  only the data socket is writable, and two passes: an 8-byte payload (10 bytes
  marshaled) arrives for channel 5 and the first send takes 6 bytes, the second 4.
\<close>

definition running_io :: "bytes io" where
  "running_io = example_io\<lparr>running := True\<rparr>"

definition quiet_env :: "bytes poll_env" where
  "quiet_env =
     \<lparr>arrivals = [], rlist = [], wlist = [3], xlist = [], trigger_recv = None,
      recv_result = RecvTimeout, send_result = Sent 0\<rparr>"

definition example_envs :: "bytes poll_env list" where
  "example_envs =
     [quiet_env\<lparr>arrivals := [(5, ''abcdefgh'')], send_result := Sent 6\<rparr>,
      quiet_env\<lparr>send_result := Sent 4\<rparr>]"

section \<open>Properties of rmqid/message.py\<close>

lemma written_write_frame:
  "written (channel (write_frame f m)) = written (channel m) @ [f]"
  by (simp add: write_frame_def)

lemma pruned_properties:
  "fst (properties_prop attributes m) = filter (\<lambda>(k, v). k \<in> set attributes) (properties m)"
  unfolding properties_prop_def prune_invalid_properties_def Let_def
  by (auto intro!: filter_cong simp: rev_image_eqI)

lemma properties_prop_keeps:
  "body (snd (properties_prop attributes m)) = body m"
  "channel (snd (properties_prop attributes m)) = channel m"
  by (simp_all add: properties_prop_def prune_invalid_properties_def Let_def)

text \<open>
  C9. For a message received from the broker (its method is set), \<open>nack\<close> returns
  without raising and writes to the channel exactly one frame, a \<open>Basic.Ack\<close> carrying
  the message's delivery tag: the very frame \<open>ack\<close> writes, and not a \<open>Basic.Nack\<close>.
\<close>

theorem nack_writes_basic_ack:
  assumes "method' m = Some d"
  shows "nack m = Returned (write_frame (Basic_Ack (delivery_tag d)) m)
       \<and> nack m = ack m
       \<and> written (channel (state_of (nack m)))
           = written (channel m) @ [Basic_Ack (delivery_tag d)]
       \<and> last (written (channel (state_of (nack m)))) \<noteq> Basic_Nack (delivery_tag d)"
  using assms by (simp add: nack_def ack_def written_write_frame)

theorem nack_writes_basic_ack_witness:
  "method' received_message = Some (Deliver 7)
   \<and> nack received_message = ack received_message
   \<and> written (channel (state_of (nack received_message))) = [Basic_Ack 7]"
proof -
  have h: "method' received_message = Some (Deliver 7)"
    by (simp add: received_message_def)
  have w: "written (channel received_message) = []"
    by (simp add: received_message_def)
  from nack_writes_basic_ack [OF h] show ?thesis
    using h w by auto
qed

text \<open>
  C10. Publishing a message whose body is empty writes exactly two frames to the
  channel, the \<open>Basic.Publish\<close> method frame and then a content header with body size 0
  (carrying the properties that are attributes of \<open>Basic.Properties\<close>), and no content
  body frame. This holds for every maximum frame size; when that size is 0 the float
  division raises once both frames are written.
\<close>

theorem publish_empty_body:
  assumes "length (body m) = 0"
  shows "written (channel (state_of (publish attributes exchange routing_key m)))
           = written (channel m)
             @ [Basic_Publish (case exchange of ExchangeObject n \<Rightarrow> n | ExchangeName n \<Rightarrow> n)
                  routing_key,
                ContentHeader 0 (filter (\<lambda>(k, v). k \<in> set attributes) (properties m))]"
proof -
  let ?m1 = "write_frame (Basic_Publish
               (case exchange of ExchangeObject n \<Rightarrow> n | ExchangeName n \<Rightarrow> n) routing_key) m"
  have b1: "body ?m1 = []" and p1: "properties ?m1 = properties m"
    using assms by (simp_all add: write_frame_def)
  obtain props m2 where pp: "properties_prop attributes ?m1 = (props, m2)"
    by (cases "properties_prop attributes ?m1")
  have props: "props = filter (\<lambda>(k, v). k \<in> set attributes) (properties m)"
    using pruned_properties [of attributes ?m1] pp p1 by simp
  have b2: "body m2 = []" and c2: "channel m2 = channel ?m1"
    using properties_prop_keeps [of attributes ?m1] pp b1 by simp_all
  show ?thesis
    unfolding publish_def Let_def pp
    by (simp add: b2 c2 props pieces_of_def written_write_frame write_frame_def)
qed

theorem publish_empty_body_witness:
  "written (channel (state_of (publish [''content_type'', ''message_id'']
       (ExchangeName ''logs'') ''info''
       \<lparr>method' = None, body = [], properties = [(''message_id'', PStr ''a1''), (''colour'', PInt 3)],
        channel = \<lparr>maximum_frame_size = 4096, written = []\<rparr>\<rparr>)))
   = [Basic_Publish ''logs'' ''info'', ContentHeader 0 [(''message_id'', PStr ''a1'')]]"
  using publish_empty_body [of "\<lparr>method' = None, body = [],
        properties = [(''message_id'', PStr ''a1''), (''colour'', PInt 3)],
        channel = \<lparr>maximum_frame_size = 4096, written = []\<rparr>\<rparr>"
      "[''content_type'', ''message_id'']" "ExchangeName ''logs''" "''info''"]
  by simp

section \<open>Properties of rabbitpy/io.py\<close>

subsection \<open>The loop of on_read\<close>

lemma on_read_loop_empty:
  "buffer s = [] \<Longrightarrow> on_read_loop unmarshal s = Some (Returned s)"
  by (subst on_read_loop.simps) simp

lemma on_read_loop_stall:
  assumes "buffer s \<noteq> []"
    and "unmarshal (buffer s) = UnmarshalingException \<or> unmarshal (buffer s) = AMQPFrameError"
  shows "on_read_loop unmarshal s = Some (Returned s)"
  using assms
  by (subst on_read_loop.simps) (auto simp: read_frame_def get_frame_from_str_def)

lemma on_read_loop_frame:
  assumes "buffer s \<noteq> []" and "unmarshal (buffer s) = Unmarshaled n c f"
  shows "on_read_loop unmarshal s =
           (case dispatch c f (s\<lparr>buffer := drop n (buffer s)\<rparr>) of
              Raised e s2 \<Rightarrow> Some (Raised e s2)
            | Returned s2 \<Rightarrow> on_read_loop unmarshal s2)"
  using assms
  by (subst on_read_loop.simps) (simp add: read_frame_def get_frame_from_str_def dispatch_def)

lemma dispatch_buffer:
  "dispatch c f (s\<lparr>buffer := b\<rparr>) = with_buffer b (dispatch c f s)"
  by (simp add: dispatch_def call_channel0_def add_frame_to_queue_def Let_def
      split: option.splits prod.splits)

lemma dispatch_keeps_buffer:
  "buffer (state_of (dispatch c f s)) = buffer s"
  by (simp add: dispatch_def call_channel0_def add_frame_to_queue_def Let_def
      split: option.splits prod.splits)

lemma progress_of_framing: "framing_codec unmarshal \<Longrightarrow> progress unmarshal"
  by (auto simp: framing_codec_def progress_def)

lemma on_read_loop_terminates:
  assumes "progress unmarshal"
  shows "\<exists>r. on_read_loop unmarshal s = Some r"
proof (induction "length (buffer s)" arbitrary: s rule: less_induct)
  case less
  show ?case
  proof (cases "buffer s = []")
    case True
    then show ?thesis by (simp add: on_read_loop_empty)
  next
    case False
    show ?thesis
    proof (cases "unmarshal (buffer s)")
      case (Unmarshaled n c f)
      with assms have n: "0 < n" by (auto simp: progress_def)
      let ?r = "dispatch c f (s\<lparr>buffer := drop n (buffer s)\<rparr>)"
      have step: "on_read_loop unmarshal s =
           (case ?r of Raised e s2 \<Rightarrow> Some (Raised e s2)
            | Returned s2 \<Rightarrow> on_read_loop unmarshal s2)"
        using on_read_loop_frame [of s unmarshal n c f] False Unmarshaled by simp
      show ?thesis
      proof (cases ?r)
        case (Returned s2)
        have "buffer s2 = drop n (buffer s)"
          using dispatch_keeps_buffer [of c f "s\<lparr>buffer := drop n (buffer s)\<rparr>"] Returned
          by simp
        with n False have "length (buffer s2) < length (buffer s)" by simp
        from less [OF this] show ?thesis using step Returned by simp
      next
        case (Raised e s2)
        then show ?thesis using step by simp
      qed
    next
      case UnmarshalingException
      with False show ?thesis by (simp add: on_read_loop_stall)
    next
      case AMQPFrameError
      with False show ?thesis by (simp add: on_read_loop_stall)
    qed
  qed
qed

lemma on_read_loop_append:
  assumes "framing_codec unmarshal"
  shows "on_read_loop unmarshal (s\<lparr>buffer := b @ extra\<rparr>) =
           (case on_read_loop unmarshal (s\<lparr>buffer := b\<rparr>) of
              None \<Rightarrow> None
            | Some (Raised e s') \<Rightarrow> Some (Raised e (s'\<lparr>buffer := buffer s' @ extra\<rparr>))
            | Some (Returned s') \<Rightarrow> on_read_loop unmarshal (s'\<lparr>buffer := buffer s' @ extra\<rparr>))"
proof (induction "length b" arbitrary: s b rule: less_induct)
  case less
  show ?case
  proof (cases "b = []")
    case True
    then show ?thesis by (simp add: on_read_loop_empty)
  next
    case False
    show ?thesis
    proof (cases "unmarshal b")
      case (Unmarshaled n c f)
      with assms have n: "0 < n" "n \<le> length b"
        and ext: "unmarshal (b @ extra) = Unmarshaled n c f"
        by (auto simp: framing_codec_def)
      have short: "on_read_loop unmarshal (s\<lparr>buffer := b\<rparr>) =
           (case with_buffer (drop n b) (dispatch c f s) of
              Raised e s2 \<Rightarrow> Some (Raised e s2)
            | Returned s2 \<Rightarrow> on_read_loop unmarshal s2)"
        using on_read_loop_frame [of "s\<lparr>buffer := b\<rparr>" unmarshal n c f] False Unmarshaled
        by (simp add: dispatch_buffer)
      have long: "on_read_loop unmarshal (s\<lparr>buffer := b @ extra\<rparr>) =
           (case with_buffer (drop n b @ extra) (dispatch c f s) of
              Raised e s2 \<Rightarrow> Some (Raised e s2)
            | Returned s2 \<Rightarrow> on_read_loop unmarshal s2)"
        using on_read_loop_frame [of "s\<lparr>buffer := b @ extra\<rparr>" unmarshal n c f] False ext n
        by (simp add: dispatch_buffer)
      show ?thesis
      proof (cases "dispatch c f s")
        case (Returned t)
        have "length (drop n b) < length b" using n False by simp
        from less [OF this, of t] show ?thesis
          using short long Returned by simp
      next
        case (Raised e t)
        then show ?thesis using short long by simp
      qed
    next
      case UnmarshalingException
      with False show ?thesis
        by (simp add: on_read_loop_stall [of "s\<lparr>buffer := b\<rparr>"])
    next
      case AMQPFrameError
      with False show ?thesis
        by (simp add: on_read_loop_stall [of "s\<lparr>buffer := b\<rparr>"])
    qed
  qed
qed

lemma dispatch_registered:
  assumes "channels s c = Some (chan, q)"
  shows "\<exists>t. dispatch c f s = Returned t
           \<and> trace t = trace s @ dispatch_effects (c, f)
           \<and> buffer t = buffer s
           \<and> (\<forall>c'. channels t c'
                 = map_option (\<lambda>(chan, q). (chan, q @ queued_for c' [(c, f)])) (channels s c'))"
  using assms
  by (auto simp: dispatch_def call_channel0_def add_frame_to_queue_def queued_for_def Let_def
      option.map_id split: option.splits)

lemma queued_for_Cons:
  "queued_for c' ((c, f) # frames) = queued_for c' [(c, f)] @ queued_for c' frames"
  by (simp add: queued_for_def)

lemma on_read_loop_frames:
  assumes "\<forall>(c, f) \<in> set frames. marshal f c \<noteq> [] \<and>
             (\<forall>extra. unmarshal (marshal f c @ extra) = Unmarshaled (length (marshal f c)) c f)"
    and "\<forall>(c, f) \<in> set frames. channels s c \<noteq> None"
  shows "\<exists>s'. on_read_loop unmarshal (s\<lparr>buffer := concat (map (\<lambda>(c, f). marshal f c) frames)\<rparr>)
               = Some (Returned s')
           \<and> trace s' = trace s @ concat (map dispatch_effects frames)
           \<and> buffer s' = []
           \<and> (\<forall>c. channels s' c
                 = map_option (\<lambda>(chan, q). (chan, q @ queued_for c frames)) (channels s c))"
  using assms
proof (induction frames arbitrary: s)
  case Nil
  show ?case
    by (auto simp: on_read_loop_empty queued_for_def option.map_ident split: prod.splits
        intro!: option.map_ident [symmetric])
next
  case (Cons cf frames)
  obtain c f where cf: "cf = (c, f)" by (cases cf)
  let ?rest = "concat (map (\<lambda>(c, f). marshal f c) frames)"
  from Cons.prems(1) cf have ne: "marshal f c \<noteq> []"
    and dec: "unmarshal (marshal f c @ ?rest) = Unmarshaled (length (marshal f c)) c f"
    by auto
  from Cons.prems(2) cf obtain chan q where reg: "channels s c = Some (chan, q)"
    by auto
  from dispatch_registered [OF reg, of f] obtain t where
    t: "dispatch c f s = Returned t"
    and tt: "trace t = trace s @ dispatch_effects (c, f)"
    and tc: "\<forall>c'. channels t c'
                 = map_option (\<lambda>(chan, q). (chan, q @ queued_for c' [(c, f)])) (channels s c')"
    by blast
  have step: "on_read_loop unmarshal (s\<lparr>buffer := marshal f c @ ?rest\<rparr>)
                = on_read_loop unmarshal (t\<lparr>buffer := ?rest\<rparr>)"
    using on_read_loop_frame [of "s\<lparr>buffer := marshal f c @ ?rest\<rparr>" unmarshal
        "length (marshal f c)" c f] ne dec t
    by (simp add: dispatch_buffer)
  have reg': "\<forall>(c, f) \<in> set frames. channels t c \<noteq> None"
    using Cons.prems(2) tc by auto
  have codec': "\<forall>(c, f) \<in> set frames. marshal f c \<noteq> [] \<and>
             (\<forall>extra. unmarshal (marshal f c @ extra) = Unmarshaled (length (marshal f c)) c f)"
    using Cons.prems(1) by auto
  from Cons.IH [OF codec' reg'] obtain s' where
    r: "on_read_loop unmarshal (t\<lparr>buffer := ?rest\<rparr>) = Some (Returned s')"
    and rt: "trace s' = trace t @ concat (map dispatch_effects frames)"
    and rb: "buffer s' = []"
    and rc: "\<forall>c'. channels s' c'
                 = map_option (\<lambda>(chan, q). (chan, q @ queued_for c' frames)) (channels t c')"
    by blast
  have chans: "\<forall>c'. channels s' c'
                 = map_option (\<lambda>(chan, q). (chan, q @ queued_for c' (cf # frames))) (channels s c')"
  proof
    fix c'
    show "channels s' c'
            = map_option (\<lambda>(chan, q). (chan, q @ queued_for c' (cf # frames))) (channels s c')"
      using rc [rule_format, of c'] tc [rule_format, of c'] queued_for_Cons [of c' c f frames]
      by (cases "channels s c'") (auto simp: cf)
  qed
  show ?case
    using step r rt rb chans tt by (simp add: cf)
qed

lemma on_read_append:
  assumes "framing_codec unmarshal"
  shows "on_read unmarshal (chunk @ extra) s =
           (case on_read unmarshal chunk s of
              None \<Rightarrow> None
            | Some (Raised e s') \<Rightarrow> Some (Raised e (s'\<lparr>buffer := buffer s' @ extra\<rparr>))
            | Some (Returned s') \<Rightarrow> on_read unmarshal extra s')"
  using on_read_loop_append [OF assms, where s = s and b = "buffer s @ chunk" and extra = extra]
  by (simp add: on_read_def split: option.splits outcome.splits)

subsection \<open>The small codec and the example object\<close>

lemma framing_codec_tlv: "framing_codec tlv_unmarshal"
  unfolding framing_codec_def tlv_unmarshal_def
  by (auto split: list.splits if_splits)

lemma tlv_roundtrip:
  assumes "0 \<le> c" and "c < 256" and "length f < 256"
  shows "tlv_marshal f c \<noteq> [] \<and>
         (\<forall>extra. tlv_unmarshal (tlv_marshal f c @ extra)
                    = Unmarshaled (length (tlv_marshal f c)) c f)"
  using assms by (simp add: tlv_marshal_def tlv_unmarshal_def nat_less_iff)

lemma example_io_fields:
  "buffer example_io = []"
  "trace example_io = []"
  "exceptions example_io = []"
  "events example_io = {}"
  "channels example_io 0 = Some (\<lparr>chan_id = 0, open' = True\<rparr>, [])"
  "channels example_io 5 = Some (\<lparr>chan_id = 5, open' = True\<rparr>, [])"
  "channels example_io 7 = None"
  by (simp_all add: example_io_def add_channel_def init_io_def)

subsection \<open>Demultiplexing\<close>

text \<open>
  The condition under which C2 holds. With a framing codec, delivering a byte stream
  to \<open>on_read\<close> in chunks, however the stream is cut (at least one chunk), does what
  delivering it as one chunk does.
  Every delivery returns or raises. When the chunked delivery returns, the single
  delivery returns the very same state: same dispatches, same queues, and the same
  undecodable rest left in the buffer until more bytes arrive. When a dispatch raises,
  both raise the same error at the same frame with states that differ only by the bytes
  of the chunks that were never delivered, which the single delivery has in its buffer.
\<close>

theorem chunking_independent:
  assumes "framing_codec unmarshal" and "chunks \<noteq> []"
  shows "\<exists>r. feed unmarshal chunks s = Some r \<and>
           (case r of
              Returned s' \<Rightarrow> on_read unmarshal (concat chunks) s = Some (Returned s')
            | Raised e s' \<Rightarrow>
                \<exists>undelivered. on_read unmarshal (concat chunks) s
                   = Some (Raised e (s'\<lparr>buffer := buffer s' @ undelivered\<rparr>)))"
  using assms(2)
proof (induction chunks arbitrary: s)
  case Nil
  then show ?case by simp
next
  case (Cons chunk chunks)
  obtain r where r: "on_read unmarshal chunk s = Some r"
    using on_read_loop_terminates [OF progress_of_framing [OF assms(1)]]
    by (auto simp: on_read_def)
  show ?case
  proof (cases r)
    case (Raised e s')
    then show ?thesis
      using r on_read_append [OF assms(1), of chunk "concat chunks" s] by auto
  next
    case (Returned s')
    show ?thesis
    proof (cases "chunks = []")
      case True
      then show ?thesis using r Returned by simp
    next
      case False
      have whole: "on_read unmarshal (concat (chunk # chunks)) s
                     = on_read unmarshal (concat chunks) s'"
        using r Returned on_read_append [OF assms(1), of chunk "concat chunks" s] by simp
      have fed: "feed unmarshal (chunk # chunks) s = feed unmarshal chunks s'"
        using r Returned by simp
      from Cons.IH [OF False, of s'] show ?thesis
        unfolding whole fed .
    qed
  qed
qed

theorem chunking_independent_witness:
  "framing_codec tlv_unmarshal \<and> example_chunks \<noteq> []
   \<and> (\<exists>r. feed tlv_unmarshal example_chunks example_io = Some r \<and>
           (case r of
              Returned s' \<Rightarrow>
                on_read tlv_unmarshal (concat example_chunks) example_io = Some (Returned s')
            | Raised e s' \<Rightarrow>
                \<exists>undelivered. on_read tlv_unmarshal (concat example_chunks) example_io
                   = Some (Raised e (s'\<lparr>buffer := buffer s' @ undelivered\<rparr>))))
   \<and> map_option (\<lambda>r. trace (state_of r)) (feed tlv_unmarshal example_chunks example_io)
       = Some [Lock_acquire, On_frame ''A'', Lock_release, Queue_put 5 ''B'']"
proof -
  have h1: "framing_codec tlv_unmarshal" by (rule framing_codec_tlv)
  have h2: "example_chunks \<noteq> []" by (simp add: example_chunks_def)
  have run: "map_option (\<lambda>r. trace (state_of r)) (feed tlv_unmarshal example_chunks example_io)
       = Some [Lock_acquire, On_frame ''A'', Lock_release, Queue_put 5 ''B'']"
    by code_simp
  from chunking_independent [OF h1 h2, of example_io] show ?thesis
    using h1 h2 run by blast
qed

lemma unmarshal_heartbeat_head: "amqp_unmarshal heartbeat_head = Unmarshaled 8 0 Heartbeat"
  by (simp add: amqp_unmarshal_def heartbeat_head_def be_nat_def)

lemma amqp_progress: "progress amqp_unmarshal"
  unfolding progress_def amqp_unmarshal_def
  by (auto simp: Let_def split: if_splits)

lemma amqp_not_framing: "\<not> framing_codec amqp_unmarshal"
proof
  assume "framing_codec amqp_unmarshal"
  with unmarshal_heartbeat_head have "8 \<le> length heartbeat_head"
    unfolding framing_codec_def by blast
  then show False by (simp add: heartbeat_head_def)
qed







text \<open>
  C3. A buffer holding the marshaled forms of a sequence of frames, each on a
  registered channel, is dispatched frame by frame in that order: a frame on channel 0
  is handed to the channel-0 handler between acquiring and releasing the lock and is
  put on no queue; any other frame is appended to the queue of its channel. The trace
  of effects is the concatenation, in decode order, of the effects of each frame, so
  that in the scenario A is handled before B is queued.
\<close>

theorem dispatch_in_decode_order:
  assumes "\<forall>(c, f) \<in> set frames. marshal f c \<noteq> [] \<and>
             (\<forall>extra. unmarshal (marshal f c @ extra) = Unmarshaled (length (marshal f c)) c f)"
    and "\<forall>(c, f) \<in> set frames. channels s c \<noteq> None"
    and "buffer s = []"
  shows "\<exists>s'. on_read unmarshal (concat (map (\<lambda>(c, f). marshal f c) frames)) s
               = Some (Returned s')
           \<and> trace s' = trace s @ concat (map dispatch_effects frames)
           \<and> buffer s' = []
           \<and> (\<forall>c. channels s' c
                 = map_option (\<lambda>(chan, q). (chan, q @ queued_for c frames)) (channels s c))"
  using on_read_loop_frames [OF assms(1) assms(2)] assms(3)
  by (simp add: on_read_def)


theorem dispatch_in_decode_order_witness:
  "buffer example_io = []
   \<and> (\<exists>s'. on_read tlv_unmarshal (concat (map (\<lambda>(c, f). tlv_marshal f c) example_frames))
               example_io = Some (Returned s')
          \<and> trace s' = [Lock_acquire, On_frame ''A'', Lock_release, Queue_put 5 ''B'']
          \<and> channels s' 0 = Some (\<lparr>chan_id = 0, open' = True\<rparr>, [])
          \<and> channels s' 5 = Some (\<lparr>chan_id = 5, open' = True\<rparr>, [''B'']))"
proof -
  have h1: "\<forall>(c, f) \<in> set example_frames. tlv_marshal f c \<noteq> [] \<and>
       (\<forall>extra. tlv_unmarshal (tlv_marshal f c @ extra)
                  = Unmarshaled (length (tlv_marshal f c)) c f)"
    using tlv_roundtrip [of 0 "''A''"] tlv_roundtrip [of 5 "''B''"]
    by (simp add: example_frames_def)
  have h2: "\<forall>(c, f) \<in> set example_frames. channels example_io c \<noteq> None"
    by (simp add: example_frames_def example_io_fields)
  have h3: "buffer example_io = []"
    by (simp add: example_io_fields)
  from dispatch_in_decode_order [OF h1 h2 h3] obtain s' where
    "on_read tlv_unmarshal (concat (map (\<lambda>(c, f). tlv_marshal f c) example_frames))
       example_io = Some (Returned s')"
    and "trace s' = trace example_io @ concat (map dispatch_effects example_frames)"
    and "\<forall>c. channels s' c
           = map_option (\<lambda>(chan, q). (chan, q @ queued_for c example_frames))
               (channels example_io c)"
    by blast
  then have "on_read tlv_unmarshal (concat (map (\<lambda>(c, f). tlv_marshal f c) example_frames))
               example_io = Some (Returned s')
          \<and> trace s' = [Lock_acquire, On_frame ''A'', Lock_release, Queue_put 5 ''B'']
          \<and> channels s' 0 = Some (\<lparr>chan_id = 0, open' = True\<rparr>, [])
          \<and> channels s' 5 = Some (\<lparr>chan_id = 5, open' = True\<rparr>, [''B''])"
    by (simp add: example_io_fields example_frames_def queued_for_def)
  with h3 show ?thesis by blast
qed

text \<open>
  C5 as amended. When the frame decoded from the buffer is on a channel that is not
  registered, \<open>on_read\<close> raises \<open>KeyError\<close>. The frame has been taken out of the read
  buffer and is put on no queue; the exception queue and the events are as they were
  (for channel 0 the lock has been acquired and is not released).
\<close>

theorem unknown_channel_raises_key_error:
  assumes "buffer s @ data \<noteq> []"
    and "unmarshal (buffer s @ data) = Unmarshaled n c f"
    and "channels s c = None"
  shows "on_read unmarshal data s
           = Some (Raised KeyError
               (if c = 0
                then s\<lparr>buffer := drop n (buffer s @ data), trace := trace s @ [Lock_acquire]\<rparr>
                else s\<lparr>buffer := drop n (buffer s @ data)\<rparr>))"
  using assms on_read_loop_frame [of "s\<lparr>buffer := buffer s @ data\<rparr>" unmarshal n c f]
  by (cases "c = 0")
     (simp_all add: on_read_def dispatch_def call_channel0_def add_frame_to_queue_def Let_def)

theorem unknown_channel_raises_key_error_witness:
  "buffer example_io @ [CHR 0x07, CHR 0x01, CHR ''X''] \<noteq> []
   \<and> tlv_unmarshal (buffer example_io @ [CHR 0x07, CHR 0x01, CHR ''X'']) = Unmarshaled 3 7 ''X''
   \<and> channels example_io 7 = None
   \<and> on_read tlv_unmarshal [CHR 0x07, CHR 0x01, CHR ''X''] example_io
       = Some (Raised KeyError (example_io\<lparr>buffer := []\<rparr>))"
proof -
  have h1: "buffer example_io @ [CHR 0x07, CHR 0x01, CHR ''X''] \<noteq> []" by simp
  have h2: "tlv_unmarshal (buffer example_io @ [CHR 0x07, CHR 0x01, CHR ''X''])
              = Unmarshaled 3 7 ''X''"
    by (simp add: tlv_unmarshal_def example_io_fields)
  have h3: "channels example_io 7 = None" by (simp add: example_io_fields)
  from unknown_channel_raises_key_error [where s = example_io and unmarshal = tlv_unmarshal
      and data = "[CHR 0x07, CHR 0x01, CHR ''X'']" and n = 3 and c = 7 and f = "''X''", OF h1 h2 h3]
  show ?thesis
    using h1 h2 h3 by (simp add: example_io_fields)
qed

text \<open>
  C5 as stated fails: a frame for the unregistered channel 7 leaves no fault on the
  exception queue and the exception-raised event unset.
\<close>

theorem unknown_channel_no_fault_counterexample:
  "on_read tlv_unmarshal [CHR 0x07, CHR 0x01, CHR ''X''] example_io
     = Some (Raised KeyError example_io)
   \<and> exceptions example_io = [] \<and> EXCEPTION_RAISED \<notin> events example_io"
proof -
  have dec: "tlv_unmarshal [CHR 0x07, CHR 0x01, CHR ''X''] = Unmarshaled 3 7 ''X''"
    by (simp add: tlv_unmarshal_def)
  have same: "example_io\<lparr>buffer := []\<rparr> = example_io"
    by (simp add: example_io_def add_channel_def init_io_def)
  have "on_read tlv_unmarshal [CHR 0x07, CHR 0x01, CHR ''X''] example_io
          = Some (Raised KeyError example_io)"
    using on_read_loop_frame [of "example_io\<lparr>buffer := [CHR 0x07, CHR 0x01, CHR ''X'']\<rparr>"
        tlv_unmarshal 3 7 "''X''"] dec same
    by (simp add: on_read_def dispatch_def add_frame_to_queue_def example_io_fields)
  then show ?thesis by (simp add: example_io_fields)
qed

subsection \<open>The channel registry\<close>

text \<open>
  C6 as amended. \<open>add_channel\<close> stores the channel and its queue under the channel's
  id whether or not the id is in use: the registry afterwards maps the id to the new
  pair, and neither the exception queue nor the events nor the trace change.
\<close>

theorem add_channel_replaces:
  "channels (add_channel chan queue s) = (channels s)(chan_id chan \<mapsto> (chan, queue))
   \<and> exceptions (add_channel chan queue s) = exceptions s
   \<and> events (add_channel chan queue s) = events s
   \<and> trace (add_channel chan queue s) = trace s"
  by (simp add: add_channel_def)

text \<open>
  C6 as stated fails: registering channel 5 again replaces the entry of channel 5, and
  nothing flags it.
\<close>

theorem add_channel_in_use_counterexample:
  "channels example_io 5 = Some (\<lparr>chan_id = 5, open' = True\<rparr>, [])
   \<and> channels (add_channel \<lparr>chan_id = 5, open' = False\<rparr> [''Z''] example_io) 5
       = Some (\<lparr>chan_id = 5, open' = False\<rparr>, [''Z''])
   \<and> exceptions (add_channel \<lparr>chan_id = 5, open' = False\<rparr> [''Z''] example_io) = []
   \<and> events (add_channel \<lparr>chan_id = 5, open' = False\<rparr> [''Z''] example_io) = {}"
  by (simp add: add_channel_def example_io_fields)

subsection \<open>The write path\<close>

lemma dispatch_keeps_outbound:
  "transmitted (state_of (dispatch c f s)) = transmitted s"
  "write_buffer (state_of (dispatch c f s)) = write_buffer s"
  "write_queue (state_of (dispatch c f s)) = write_queue s"
  "running (state_of (dispatch c f s)) = running s"
  by (simp_all add: dispatch_def call_channel0_def add_frame_to_queue_def Let_def
      split: option.splits prod.splits)

lemma on_read_loop_keeps_outbound:
  assumes "progress unmarshal"
  shows "\<exists>r. on_read_loop unmarshal s = Some r
           \<and> transmitted (state_of r) = transmitted s
           \<and> write_buffer (state_of r) = write_buffer s
           \<and> write_queue (state_of r) = write_queue s
           \<and> running (state_of r) = running s"
proof (induction "length (buffer s)" arbitrary: s rule: less_induct)
  case less
  show ?case
  proof (cases "buffer s = []")
    case True
    then show ?thesis by (simp add: on_read_loop_empty)
  next
    case False
    show ?thesis
    proof (cases "unmarshal (buffer s)")
      case (Unmarshaled n c f)
      with assms have n: "0 < n" by (auto simp: progress_def)
      let ?s1 = "s\<lparr>buffer := drop n (buffer s)\<rparr>"
      have step: "on_read_loop unmarshal s =
           (case dispatch c f ?s1 of Raised e s2 \<Rightarrow> Some (Raised e s2)
            | Returned s2 \<Rightarrow> on_read_loop unmarshal s2)"
        using on_read_loop_frame [of s unmarshal n c f] False Unmarshaled by simp
      note keeps = dispatch_keeps_outbound [of c f ?s1] dispatch_keeps_buffer [of c f ?s1]
      show ?thesis
      proof (cases "dispatch c f ?s1")
        case (Returned s2)
        with keeps have "buffer s2 = drop n (buffer s)" by simp
        with n False have "length (buffer s2) < length (buffer s)" by simp
        from less [OF this] show ?thesis using step Returned keeps by simp
      next
        case (Raised e s2)
        then show ?thesis using step keeps by simp
      qed
    next
      case UnmarshalingException
      with False show ?thesis by (simp add: on_read_loop_stall)
    next
      case AMQPFrameError
      with False show ?thesis by (simp add: on_read_loop_stall)
    qed
  qed
qed

lemma on_error_keeps_outbound:
  "transmitted (state_of (on_error exc s)) = transmitted s"
  "write_buffer (state_of (on_error exc s)) = write_buffer s"
  "write_queue (state_of (on_error exc s)) = write_queue s"
  by (simp_all add: on_error_def split: option.splits prod.splits)

lemma loop_read_keeps_outbound:
  assumes "progress unmarshal"
  shows "\<exists>r. loop_read unmarshal env s = Some r
           \<and> transmitted (state_of r) = transmitted s
           \<and> write_buffer (state_of r) = write_buffer s
           \<and> write_queue (state_of r) = write_queue s"
proof (cases "running s")
  case False
  then show ?thesis by (simp add: loop_read_def)
next
  case True
  show ?thesis
  proof (cases "recv_result env")
    case (Received data)
    from on_read_loop_keeps_outbound [OF assms, of "s\<lparr>buffer := buffer s @ data\<rparr>"]
    show ?thesis using True Received by (auto simp: loop_read_def on_read_def)
  next
    case RecvTimeout
    then show ?thesis using True by (simp add: loop_read_def)
  next
    case (RecvError e)
    then show ?thesis using True by (simp add: loop_read_def on_error_keeps_outbound)
  qed
qed

lemma loop_write_keeps_outbound:
  assumes "partial_send (send_result env)"
  shows "outbound marshal (state_of (loop_write env s)) = outbound marshal s"
  using assms
  by (auto simp: loop_write_def outbound_def pending_def partial_send_def Let_def
      split: list.splits send_outcome.splits)

lemma drain_keeps_outbound:
  "outbound marshal (drain_write_queue marshal s) = outbound marshal s"
  by (simp add: drain_write_queue_def outbound_def pending_def)

lemma outbound_cong:
  "transmitted t = transmitted s \<Longrightarrow> write_buffer t = write_buffer s
     \<Longrightarrow> write_queue t = write_queue s \<Longrightarrow> outbound marshal t = outbound marshal s"
  by (simp add: outbound_def pending_def)

lemma loop_poll_keeps_outbound:
  assumes "progress unmarshal" and "partial_send (send_result env)"
  shows "\<exists>r. loop_poll marshal unmarshal env s = Some r
           \<and> outbound marshal (state_of r) = outbound marshal s"
proof -
  let ?s1 = "drain_write_queue marshal s"
  have d: "outbound marshal ?s1 = outbound marshal s" by (rule drain_keeps_outbound)
  show ?thesis
  proof (cases "xlist env \<noteq> []")
    case True
    have "outbound marshal (state_of (on_error (Message ''Connection reset'')
             (?s1\<lparr>events := insert SOCKET_CLOSE (events ?s1)\<rparr>))) = outbound marshal ?s1"
      by (rule outbound_cong) (simp_all add: on_error_keeps_outbound)
    with True d show ?thesis by (simp add: loop_poll_def Let_def)
  next
    case False
    show ?thesis
    proof (cases "if write_trigger ?s1 \<in> set (rlist env) then trigger_recv env else None")
      case (Some e)
      with False d show ?thesis by (simp add: loop_poll_def Let_def)
    next
      case None
      obtain r where r: "(if fd ?s1 \<in> set (rlist env) then loop_read unmarshal env ?s1
                      else Some (Returned ?s1)) = Some r"
        and ro: "outbound marshal (state_of r) = outbound marshal ?s1"
        using loop_read_keeps_outbound [OF assms(1), of env ?s1]
        by (cases "fd ?s1 \<in> set (rlist env)") (auto intro: outbound_cong)
      show ?thesis
      proof (cases r)
        case (Raised e s2)
        with False None r ro d show ?thesis by (simp add: loop_poll_def Let_def)
      next
        case (Returned s2)
        with False None r ro d loop_write_keeps_outbound [OF assms(2), of marshal s2]
        show ?thesis by (simp add: loop_poll_def Let_def)
      qed
    qed
  qed
qed

lemma loop_step_outbound:
  assumes "progress unmarshal" and "partial_send (send_result env)"
  shows "\<exists>r. loop_step marshal unmarshal env s = Some r
           \<and> outbound marshal (state_of r)
               = outbound marshal s
                 @ concat (map (\<lambda>data. marshal (snd data) (fst data)) (arrivals env))"
  using loop_poll_keeps_outbound [OF assms, of marshal
      "s\<lparr>write_queue := write_queue s @ arrivals env\<rparr>"]
  by (simp add: loop_step_def outbound_def pending_def)

lemma iterations_outbound:
  assumes "progress unmarshal" and "\<forall>env \<in> set envs. partial_send (send_result env)"
  shows "\<exists>s'. iterations marshal unmarshal envs s = Some s'
           \<and> outbound marshal s'
               = outbound marshal s
                 @ concat (map (\<lambda>data. marshal (snd data) (fst data))
                     (concat (map arrivals envs)))"
  using assms(2)
proof (induction envs arbitrary: s)
  case Nil
  then show ?case by simp
next
  case (Cons env envs)
  from Cons.prems have p: "partial_send (send_result env)"
    and ps: "\<forall>env \<in> set envs. partial_send (send_result env)" by simp_all
  from loop_step_outbound [OF assms(1) p, of marshal s] obtain r where
    r: "loop_step marshal unmarshal env s = Some r"
    and ro: "outbound marshal (state_of r)
               = outbound marshal s
                 @ concat (map (\<lambda>data. marshal (snd data) (fst data)) (arrivals env))"
    by blast
  from Cons.IH [OF ps, of "state_of r"] show ?case
    using r ro by auto
qed

lemma partial_send_requeues:
  assumes "running s" and "write_buffer s = chunk # rest"
    and "send_result env = Sent n" and "n < length chunk"
  shows "loop_write env s
           = Returned (s\<lparr>write_buffer := drop n chunk # rest,
                         transmitted := transmitted s @ take n chunk\<rparr>)"
  using assms by (simp add: loop_write_def Let_def)


lemma progress_tlv: "progress tlv_unmarshal"
  unfolding progress_def tlv_unmarshal_def
  by (auto split: list.splits if_splits)

lemma loop_iterate_is_iterations:
  "loop_iterate marshal unmarshal envs s = Some r
     \<Longrightarrow> \<exists>k. iterations marshal unmarshal (take k envs) s = Some (state_of r)"
proof (induction envs arbitrary: s)
  case Nil
  then show ?case by (auto split: if_splits)
next
  case (Cons env envs)
  show ?case
  proof (cases "running s")
    case False
    with Cons.prems have "r = Returned s" by simp
    then have "iterations marshal unmarshal (take 0 (env # envs)) s = Some (state_of r)"
      by simp
    then show ?thesis by blast
  next
    case True
    with Cons.prems obtain r1 where r1: "loop_step marshal unmarshal env s = Some r1"
      by (auto split: option.splits)
    have stop: "iterations marshal unmarshal (take 1 (env # envs)) s = Some (state_of r1)"
      using r1 by simp
    have "state_of r = state_of r1 \<or> loop_iterate marshal unmarshal envs (state_of r1) = Some r"
      using Cons.prems True r1
      by (auto split: outcome.splits py_error.splits if_splits)
    then show ?thesis
    proof
      assume "state_of r = state_of r1"
      with stop show ?thesis by metis
    next
      assume "loop_iterate marshal unmarshal envs (state_of r1) = Some r"
      from Cons.IH [OF this] obtain k where
        "iterations marshal unmarshal (take k envs) (state_of r1) = Some (state_of r)" ..
      then have "iterations marshal unmarshal (take (Suc k) (env # envs)) s = Some (state_of r)"
        using r1 by simp
      then show ?thesis by blast
    qed
  qed
qed

text \<open>
  C1. Over any number of passes of the loop in which every send takes a part of the
  front chunk (or none, or times out, or fails with errno 35), whatever the poller
  and the read path do and whatever frames the producers enqueue between passes, every
  pass returns, and the bytes transmitted followed by the bytes still pending are the
  bytes transmitted and pending at the start followed by the marshaled forms of the
  frames enqueued since, in enqueue order: no byte is lost, duplicated or reordered.
  And a send that takes \<open>n\<close> bytes of a longer front chunk puts exactly the rest of
  that chunk back at the front of the write buffer.
\<close>

theorem outbound_bytes_in_order:
  assumes "progress unmarshal" and "\<forall>env \<in> set envs. partial_send (send_result env)"
  shows "(\<exists>s'. iterations marshal unmarshal envs s = Some s'
            \<and> transmitted s' @ pending marshal s'
                = transmitted s @ pending marshal s
                  @ concat (map (\<lambda>data. marshal (snd data) (fst data))
                      (concat (map arrivals envs))))
       \<and> (\<forall>env chunk rest n.
             running s \<and> write_buffer s = chunk # rest
               \<and> send_result env = Sent n \<and> n < length chunk
             \<longrightarrow> loop_write env s
                   = Returned (s\<lparr>write_buffer := drop n chunk # rest,
                                 transmitted := transmitted s @ take n chunk\<rparr>))"
  using iterations_outbound [OF assms, of marshal s] partial_send_requeues [of s]
  by (simp add: outbound_def)

theorem outbound_bytes_in_order_witness:
  "progress tlv_unmarshal
   \<and> (\<exists>s'. iterations tlv_marshal tlv_unmarshal example_envs running_io = Some s'
          \<and> transmitted s' @ pending tlv_marshal s' = tlv_marshal ''abcdefgh'' 5)
   \<and> map_option transmitted (iterations tlv_marshal tlv_unmarshal example_envs running_io)
       = Some (tlv_marshal ''abcdefgh'' 5)
   \<and> map_option write_buffer
         (iterations tlv_marshal tlv_unmarshal (take 1 example_envs) running_io)
       = Some [''efgh'']"
proof -
  have h1: "progress tlv_unmarshal" by (rule progress_tlv)
  have h2: "\<forall>env \<in> set example_envs. partial_send (send_result env)"
    by (simp add: example_envs_def quiet_env_def partial_send_def)
  have start: "transmitted running_io = []" "pending tlv_marshal running_io = []"
    by (simp_all add: running_io_def example_io_def add_channel_def init_io_def pending_def)
  have arr: "concat (map arrivals example_envs) = [(5, ''abcdefgh'')]"
    by (simp add: example_envs_def quiet_env_def)
  have r1: "map_option transmitted (iterations tlv_marshal tlv_unmarshal example_envs running_io)
         = Some (tlv_marshal ''abcdefgh'' 5)"
    by code_simp
  have r2: "map_option write_buffer
           (iterations tlv_marshal tlv_unmarshal (take 1 example_envs) running_io)
         = Some [''efgh'']"
    by code_simp
  from outbound_bytes_in_order [OF h1 h2, of tlv_marshal running_io]
  have "\<exists>s'. iterations tlv_marshal tlv_unmarshal example_envs running_io = Some s'
          \<and> transmitted s' @ pending tlv_marshal s' = tlv_marshal ''abcdefgh'' 5"
    by (simp add: start arr)
  with h1 r1 r2 show ?thesis by blast
qed


subsection \<open>Socket errors\<close>

text \<open>
  C4. When the poller reports an errored descriptor and channel 0 is registered,
  \<open>_poll\<close> returns having set the \<open>SOCKET_CLOSE\<close> event (the one \<open>run\<close> tests to leave
  the loop) and the \<open>EXCEPTION_RAISED\<close> event, and having put exactly one exception on
  the exception queue: a connection reset if the channel-0 object is open, a connection
  error otherwise. Nothing was read (buffer, queues and trace are unchanged) and
  nothing was sent, and the run of the loop ends with this pass, whatever the
  environment would answer later.
\<close>

theorem poll_errors_report_one_fault:
  assumes "xlist env \<noteq> []" and "channels s 0 = Some (chan0, q0)"
  shows "\<exists>s'. loop_poll marshal unmarshal env s = Some (Returned s')
           \<and> SOCKET_CLOSE \<in> events s' \<and> EXCEPTION_RAISED \<in> events s'
           \<and> exceptions s'
               = exceptions s @
                 [if open' chan0
                  then ConnectionResetException (host s) (port s) (Message ''Connection reset'')
                  else ConnectionException (host s) (port s) (Message ''Connection reset'')]
           \<and> buffer s' = buffer s \<and> trace s' = trace s \<and> channels s' = channels s
           \<and> transmitted s' = transmitted s
           \<and> write_buffer s' = write_buffer (drain_write_queue marshal s)
           \<and> running s' = running s
           \<and> (\<exists>t. loop_run marshal unmarshal (env # envs) s = Some (Returned t)
                  \<and> exceptions t = exceptions s' \<and> events t = events s'
                  \<and> transmitted t = transmitted s \<and> trace t = trace s)"
  using assms
  by (simp add: loop_poll_def loop_run_def loop_step_def drain_write_queue_def on_error_def
      Let_def)

theorem poll_errors_report_one_fault_witness:
  "xlist (quiet_env\<lparr>rlist := [3], xlist := [3], recv_result := Received ''zz''\<rparr>) \<noteq> []
   \<and> channels running_io 0 = Some (\<lparr>chan_id = 0, open' = True\<rparr>, [])
   \<and> (\<exists>s'. loop_poll tlv_marshal tlv_unmarshal
              (quiet_env\<lparr>rlist := [3], xlist := [3], recv_result := Received ''zz''\<rparr>)
              running_io = Some (Returned s')
          \<and> SOCKET_CLOSE \<in> events s' \<and> EXCEPTION_RAISED \<in> events s'
          \<and> exceptions s'
               = [ConnectionResetException ''broker'' 5672 (Message ''Connection reset'')]
          \<and> buffer s' = [] \<and> transmitted s' = [])"
proof -
  let ?env = "quiet_env\<lparr>rlist := [3], xlist := [3], recv_result := Received ''zz''\<rparr>"
  have h1: "xlist ?env \<noteq> []" by simp
  have h2: "channels running_io 0 = Some (\<lparr>chan_id = 0, open' = True\<rparr>, [])"
    by (simp add: running_io_def example_io_fields)
  have f: "exceptions running_io = []" "host running_io = ''broker''" "port running_io = 5672"
    "buffer running_io = []" "transmitted running_io = []"
    by (simp_all add: running_io_def example_io_def add_channel_def init_io_def)
  from poll_errors_report_one_fault [OF h1 h2, of tlv_marshal tlv_unmarshal "[]"]
  have "\<exists>s'. loop_poll tlv_marshal tlv_unmarshal ?env running_io = Some (Returned s')
          \<and> SOCKET_CLOSE \<in> events s' \<and> EXCEPTION_RAISED \<in> events s'
          \<and> exceptions s'
               = [ConnectionResetException ''broker'' 5672 (Message ''Connection reset'')]
          \<and> buffer s' = [] \<and> transmitted s' = []"
    by (auto simp: f)
  with h1 h2 show ?thesis by blast
qed

text \<open>
  C7. On a platform where the errno of "resource temporarily unavailable" is 11, a
  send that fails with it stops the loop, drops the chunk and reports a fault: the
  branch that retries compares the errno with the literal 35.
\<close>

theorem write_eagain_11_is_fatal:
  "loop_write (quiet_env\<lparr>send_result := SendError 11\<rparr>)
      (running_io\<lparr>write_buffer := [''abc'']\<rparr>)
     = Returned (running_io\<lparr>write_buffer := [], running := False,
          exceptions := [ConnectionResetException ''broker'' 5672 (Errno 11)],
          events := {EXCEPTION_RAISED}\<rparr>)"
  by (simp add: loop_write_def Let_def on_error_def running_io_def example_io_def
      add_channel_def init_io_def quiet_env_def)

lemma write_errno_35_requeues:
  assumes "running s" and "write_buffer s = chunk # rest" and "send_result env = SendError 35"
  shows "loop_write env s = Returned s"
  using assms by (simp add: loop_write_def Let_def)

subsection \<open>Connecting\<close>

lemma connect_loop_none:
  "(connect_loop candidates = None) = (\<forall>(sockaddr, result) \<in> set candidates. result \<noteq> Connects)"
proof (induction candidates rule: connect_loop.induct)
  case 1
  show ?case by simp
next
  case (2 sockaddr rest)
  show ?case by simp
next
  case (3 sockaddr e rest)
  then show ?case by simp
qed

text \<open>
  C8. When no resolved address connects (also when none was resolved) on an object
  that has no socket yet, \<open>run\<close> returns without raising, the loop is never started,
  the state is \<open>OPENING\<close> and so not \<open>OPEN\<close>, exactly one \<open>ConnectionException\<close> has been
  put on the exception queue and the \<open>EXCEPTION_RAISED\<close> event is set.
\<close>

theorem all_connects_fail:
  assumes "\<forall>(sockaddr, result) \<in> set (get_addr_info resolved). result \<noteq> Connects"
    and "socket s = None"
  shows "\<exists>s'. io_run marshal unmarshal resolved envs s = Some (Returned s')
           \<and> s' = s\<lparr>state := Some OPENING,
                     exceptions := exceptions s @
                       [ConnectionException (host s) (port s) (Message ''Could not connect'')],
                     events := insert EXCEPTION_RAISED (events s)\<rparr>
           \<and> state s' \<noteq> Some OPEN
           \<and> exceptions s'
               = exceptions s @
                 [ConnectionException (host s) (port s) (Message ''Could not connect'')]
           \<and> EXCEPTION_RAISED \<in> events s'
           \<and> socket s' = None"
proof -
  from assms(1) have "connect_loop (get_addr_info resolved) = None"
    by (simp add: connect_loop_none)
  then show ?thesis
    using assms(2) by (simp add: io_run_def io_connect_def Let_def)
qed

theorem all_connects_fail_witness:
  "socket (init_io ''broker'' 5672 3 4 :: bytes io) = None
   \<and> io_run tlv_marshal tlv_unmarshal
        (Some [((''10.0.0.1'', 5672), Refused 111), ((''10.0.0.2'', 5672), Refused 110)])
        [] (init_io ''broker'' 5672 3 4)
      = Some (Returned
          ((init_io ''broker'' 5672 3 4)
             \<lparr>state := Some OPENING,
              exceptions := [ConnectionException ''broker'' 5672 (Message ''Could not connect'')],
              events := {EXCEPTION_RAISED}\<rparr>))"
proof -
  let ?res = "Some [((''10.0.0.1'', 5672), Refused 111), ((''10.0.0.2'', 5672), Refused 110)]"
  have h1: "\<forall>(sockaddr, result) \<in> set (get_addr_info ?res). result \<noteq> Connects"
    by (simp add: get_addr_info_def)
  have h2: "socket (init_io ''broker'' 5672 3 4 :: bytes io) = None"
    by (simp add: init_io_def)
  from all_connects_fail [OF h1 h2, of tlv_marshal tlv_unmarshal "[]"] show ?thesis
    using h2 by (simp add: init_io_def)
qed

end
